theory Spec2Isabelle
  imports Complex_Main "HOL-Library.AList"
begin

section \<open>Data model of the proportional controller (edge\_controller.py)\<close>

text \<open>
  Python floats (densities, timestamps, latencies) are modelled as exact rationals;
  Python ints (sequence numbers, counters, timing parameters in seconds) as \<open>int\<close>.
  The wall clock \<open>time.time()\<close> is an input of every operation that reads it.
  A dict whose iteration order is observable (\<open>avg_densities\<close>, \<open>green_times\<close>)
  is an association list updated in place (\<open>AList.update\<close> keeps the position of a
  key that is already present, as a Python dict does); the two dicts that are only
  looked up by key (\<open>sensor_data\<close>, \<open>last_seq\<close>) are maps.
\<close>

type_synonym lane = string

datatype error = KeyError | ZeroDivisionError | OSError | YAMLError | ValueError

text \<open>An entry of \<open>self.sensor_data[lane]\<close>.\<close>

record reading =
  density :: rat
  queue :: int
  timestamp :: rat

text \<open>
  The decoded JSON body of an inbound sensor message. A field that is absent from the
  JSON object is \<open>None\<close>; a field that is present carries a value of the type the
  sensors send.
\<close>

record message =
  lane :: "lane option"
  density_pct :: "rat option"
  queue_len :: "int option"
  seq :: "int option"
  ts :: "rat option"

text \<open>
  The sections of the YAML configuration that the controller reads. The two keys that
  startup itself looks up inside a section, \<open>intersection_id\<close> and \<open>csv_file\<close>,
  may be absent.
\<close>

record system_cfg =
  intersection_id :: "string option"
  qos_level :: int

record timing_cfg =
  cycle_length :: int
  yellow_time :: int
  all_red_time :: int
  min_green :: int
  max_green :: int
  control_interval :: int

record algorithm_cfg =
  algorithm_type :: string
  moving_average_window :: rat

record measurement_cfg =
  csv_file :: "string option"

record config =
  cfg_system :: "system_cfg option"
  cfg_timing_parameters :: "timing_cfg option"
  cfg_lanes :: "lane list option"
  cfg_algorithm :: "algorithm_cfg option"
  cfg_measurement :: "measurement_cfg option"

text \<open>\<open>self.metrics\<close>.\<close>

record metrics =
  latencies :: "rat list"
  lost_messages :: int
  total_messages :: int
  cycle_count :: int

text \<open>The attributes of a \<open>ProportionalController\<close> object.\<close>

record controller =
  config :: config
  system :: system_cfg
  timing :: timing_cfg
  lanes :: "lane list"
  sensor_data :: "lane \<rightharpoonup> reading list"
  last_seq :: "lane \<rightharpoonup> int"
  metrics :: metrics

section \<open>Startup\<close>

text \<open>
  \<open>{lane: v for lane in lanes}\<close> for the two dicts that are only looked up by key.
\<close>

definition const_dict :: "lane list \<Rightarrow> 'v \<Rightarrow> (lane \<rightharpoonup> 'v)" where
  "const_dict ls v = (\<lambda>l. if l \<in> set ls then Some v else None)"

text \<open>
  What startup asks of the world outside the controller, with the outcome of each
  request: loading the configuration file (\<open>open\<close> and \<open>yaml.safe_load\<close>),
  constructing the MQTT client for a client id, and opening the CSV file for writing
  and writing its header row. \<open>None\<close> is success.
\<close>

record environment =
  yaml_load :: "string \<Rightarrow> error + config"
  mqtt_client :: "string \<Rightarrow> error option"
  csv_open :: "string \<Rightarrow> error option"

text \<open>
  \<open>ProportionalController.__init__\<close> with \<open>setup_csv_logging\<close>, in the order of
  the source: load the file, read the three sections, build the empty per-lane
  state, construct the MQTT client named after the intersection, then open the CSV
  file named in the \<open>measurement\<close> section. The first step that raises ends startup
  with its exception.
\<close>

definition init :: "environment \<Rightarrow> string \<Rightarrow> error + controller" where
  "init env config_file =
     (case yaml_load env config_file of Inl e \<Rightarrow> Inl e | Inr cfg \<Rightarrow>
     (case cfg_system cfg of None \<Rightarrow> Inl KeyError | Some sy \<Rightarrow>
     (case cfg_timing_parameters cfg of None \<Rightarrow> Inl KeyError | Some tm \<Rightarrow>
     (case cfg_lanes cfg of None \<Rightarrow> Inl KeyError | Some ls \<Rightarrow>
     (case intersection_id sy of None \<Rightarrow> Inl KeyError | Some iid \<Rightarrow>
     (case mqtt_client env (''Controller_'' @ iid) of Some e \<Rightarrow> Inl e | None \<Rightarrow>
     (case cfg_measurement cfg of None \<Rightarrow> Inl KeyError | Some me \<Rightarrow>
     (case csv_file me of None \<Rightarrow> Inl KeyError | Some csv_path \<Rightarrow>
     (case csv_open env csv_path of Some e \<Rightarrow> Inl e | None \<Rightarrow>
        Inr \<lparr> config = cfg, system = sy, timing = tm, lanes = ls,
              sensor_data = const_dict ls [],
              last_seq = const_dict ls (- 1),
              metrics = \<lparr> latencies = [], lost_messages = 0,
                          total_messages = 0, cycle_count = 0 \<rparr> \<rparr>)))))))))"

section \<open>Message ingestion\<close>

text \<open>
  \<open>on_message\<close>, called at wall-clock time \<open>t_receive\<close> with a decoded payload. The
  handler catches every exception, so it always returns; the result is the state it
  leaves behind together with the exception that was caught, if any. The steps are in
  the order of the source: each failing lookup leaves the state as the steps before it
  made it.
\<close>

definition on_message :: "controller \<Rightarrow> rat \<Rightarrow> message \<Rightarrow> controller \<times> error option" where
  "on_message c t_receive data =
     (case lane data of None \<Rightarrow> (c, Some KeyError) | Some lid \<Rightarrow>
     (case ts data of None \<Rightarrow> (c, Some KeyError) | Some t_publish \<Rightarrow>
     (let latency_ms = (t_receive - t_publish) * 1000 in
     (case seq data of None \<Rightarrow> (c, Some KeyError) | Some current_seq \<Rightarrow>
     (case last_seq c lid of None \<Rightarrow> (c, Some KeyError) | Some prev \<Rightarrow>
     (let expected_seq = prev + 1;
          m1 = (if prev \<ge> 0 \<and> current_seq \<noteq> expected_seq
                then (metrics c)\<lparr> lost_messages :=
                        lost_messages (metrics c) + (current_seq - expected_seq) \<rparr>
                else metrics c);
          m2 = m1\<lparr> total_messages := total_messages m1 + 1,
                    latencies := latencies m1 @ [latency_ms] \<rparr>;
          c2 = c\<lparr> last_seq := (last_seq c)(lid \<mapsto> current_seq), metrics := m2 \<rparr>
      in
     (case sensor_data c2 lid of None \<Rightarrow> (c2, Some KeyError) | Some window_old \<Rightarrow>
     (case density_pct data of None \<Rightarrow> (c2, Some KeyError) | Some d \<Rightarrow>
     (let entry = \<lparr> density = d,
                     queue = (case queue_len data of None \<Rightarrow> 0 | Some q \<Rightarrow> q),
                     timestamp = t_publish \<rparr>;
          c3 = c2\<lparr> sensor_data := (sensor_data c2)(lid \<mapsto> window_old @ [entry]) \<rparr>
      in
     (case cfg_algorithm (config c3) of None \<Rightarrow> (c3, Some KeyError) | Some alg \<Rightarrow>
     (let cutoff = t_receive - moving_average_window alg
      in (c3\<lparr> sensor_data := (sensor_data c3)
                  (lid \<mapsto> filter (\<lambda>d. timestamp d > cutoff) (window_old @ [entry])) \<rparr>,
          None))))))))))))"

text \<open>Ingesting a trace of (receipt time, payload) pairs, one call after the other.\<close>

fun ingest :: "controller \<Rightarrow> (rat \<times> message) list \<Rightarrow> controller" where
  "ingest c [] = c"
| "ingest c ((t, m) # rest) = ingest (fst (on_message c t m)) rest"

section \<open>The allocation algorithm\<close>

text \<open>\<open>int(x)\<close> on a float: truncation toward zero.\<close>

definition py_int :: "rat \<Rightarrow> int" where
  "py_int x = (if x \<ge> 0 then \<lfloor>x\<rfloor> else \<lceil>x\<rceil>)"

text \<open>\<open>{k: f(k) for k in ks}\<close>, as the insertions it performs.\<close>

fun dict_comprehension :: "('k \<Rightarrow> 'v) \<Rightarrow> 'k list \<Rightarrow> ('k \<times> 'v) list \<Rightarrow> ('k \<times> 'v) list" where
  "dict_comprehension f [] acc = acc"
| "dict_comprehension f (k # ks) acc = dict_comprehension f ks (AList.update k (f k) acc)"

text \<open>The mean of the densities in a lane's window, \<open>0.0\<close> for an empty window.\<close>

definition window_average :: "reading list \<Rightarrow> rat" where
  "window_average w =
     (if w \<noteq> [] then sum_list (map density w) / of_nat (length w) else 0)"

text \<open>The first loop of \<open>compute_green_times\<close>: \<open>avg_densities\<close>, filled lane by lane.\<close>

fun avg_densities_loop ::
  "(lane \<rightharpoonup> reading list) \<Rightarrow> lane list \<Rightarrow> (lane \<times> rat) list \<Rightarrow> error + (lane \<times> rat) list" where
  "avg_densities_loop sd [] acc = Inr acc"
| "avg_densities_loop sd (l # ls) acc =
     (case sd l of None \<Rightarrow> Inl KeyError
      | Some w \<Rightarrow> avg_densities_loop sd ls (AList.update l (window_average w) acc))"

text \<open>The second loop: proportional share of the available time, clamped.\<close>

fun raw_greens_loop ::
  "timing_cfg \<Rightarrow> (lane \<times> rat) list \<Rightarrow> rat \<Rightarrow> int \<Rightarrow> lane list \<Rightarrow> (lane \<times> rat) list
     \<Rightarrow> error + (lane \<times> rat) list" where
  "raw_greens_loop tm avg total_density available [] acc = Inr acc"
| "raw_greens_loop tm avg total_density available (l # ls) acc =
     (case map_of avg l of None \<Rightarrow> Inl KeyError
      | Some a \<Rightarrow>
          (let proportion = a / total_density;
               raw_green = proportion * of_int available
           in raw_greens_loop tm avg total_density available ls
                (AList.update l
                   (max (of_int (min_green tm)) (min (of_int (max_green tm)) raw_green))
                   acc)))"

text \<open>
  The redistribution loop over the sorted lanes: one second per lane visited, until
  the difference is used up or the lanes are.
\<close>

fun redistribute :: "lane list \<Rightarrow> (lane \<times> int) list \<Rightarrow> int \<Rightarrow> error + (lane \<times> int) list" where
  "redistribute [] green_times diff = Inr green_times"
| "redistribute (l # ls) green_times diff =
     (if diff = 0 then Inr green_times
      else (let adjustment = (if diff > 0 then 1 else - 1)
            in (case map_of green_times l of None \<Rightarrow> Inl KeyError
                | Some g \<Rightarrow>
                    redistribute ls (AList.update l (g + adjustment) green_times)
                      (diff - adjustment))))"

text \<open>
  \<open>sorted(items, key=lambda x: x[1], reverse=True)\<close>: a stable sort by descending
  density, so lanes of equal density keep the order they had.
\<close>

definition sorted_desc :: "('k \<times> rat) list \<Rightarrow> ('k \<times> rat) list" where
  "sorted_desc items = sort_key (\<lambda>x. - snd x) items"

text \<open>
  \<open>available = cycle - n_phases * (yellow + all_red)\<close>.
\<close>

definition available_time :: "timing_cfg \<Rightarrow> lane list \<Rightarrow> int" where
  "available_time tm ls =
     cycle_length tm - int (length ls) * (yellow_time tm + all_red_time tm)"

text \<open>
  The green times after clamping and truncation, before redistribution.
\<close>

definition rounded_green_times ::
  "timing_cfg \<Rightarrow> lane list \<Rightarrow> (lane \<times> rat) list \<Rightarrow> error + (lane \<times> int) list" where
  "rounded_green_times tm ls avg =
     (case raw_greens_loop tm avg (sum_list (map snd avg)) (available_time tm ls) ls [] of
        Inl e \<Rightarrow> Inl e
      | Inr raw_greens \<Rightarrow> Inr (map (\<lambda>(l, g). (l, py_int g)) raw_greens))"

text \<open>
  \<open>ProportionalController.compute_green_times\<close>: the green times and the averages
  they were computed from.
\<close>

definition compute_green_times ::
  "controller \<Rightarrow> error + ((lane \<times> int) list \<times> (lane \<times> rat) list)" where
  "compute_green_times c =
     (case avg_densities_loop (sensor_data c) (lanes c) [] of Inl e \<Rightarrow> Inl e
      | Inr avg_densities \<Rightarrow>
     (let total_density = sum_list (map snd avg_densities) in
      if total_density \<le> 0 then
        (if int (length (lanes c)) * 2 = 0 then Inl ZeroDivisionError
         else (let equal = cycle_length (timing c) div (int (length (lanes c)) * 2)
               in Inr (dict_comprehension (\<lambda>l. equal) (lanes c) [], avg_densities)))
      else
     (case rounded_green_times (timing c) (lanes c) avg_densities of Inl e \<Rightarrow> Inl e
      | Inr green_times \<Rightarrow>
     (let available = available_time (timing c) (lanes c);
          current_sum = sum_list (map snd green_times);
          diff = available - current_sum
      in if diff \<noteq> 0 then
           (case redistribute (map fst (sorted_desc avg_densities)) green_times diff of
              Inl e \<Rightarrow> Inl e
            | Inr green_times' \<Rightarrow> Inr (green_times', avg_densities))
         else Inr (green_times, avg_densities)))))"

section \<open>Publishing a schedule and the control loop\<close>

text \<open>The outbound schedule message.\<close>

record phase =
  phase_lane :: lane
  phase_green :: int
  phase_yellow :: int

record schedule =
  msg_intersection_id :: string
  msg_cycle_start_ts :: rat
  msg_cycle_length :: int
  msg_cycle_count :: int
  msg_phase_schedule :: "phase list"
  msg_algorithm :: string

text \<open>The list comprehension that builds \<open>phase_schedule\<close>.\<close>

fun phase_schedule_loop :: "timing_cfg \<Rightarrow> (lane \<times> int) list \<Rightarrow> lane list \<Rightarrow> error + phase list" where
  "phase_schedule_loop tm green_times [] = Inr []"
| "phase_schedule_loop tm green_times (l # ls) =
     (case map_of green_times l of None \<Rightarrow> Inl KeyError
      | Some g \<Rightarrow>
          (case phase_schedule_loop tm green_times ls of Inl e \<Rightarrow> Inl e
           | Inr rest \<Rightarrow>
               Inr (\<lparr> phase_lane = l, phase_green = g, phase_yellow = yellow_time tm \<rparr> # rest)))"

text \<open>
  \<open>publish_schedule\<close>, called at wall-clock time \<open>now\<close>: the message handed to the
  MQTT client. The controller state is only read.
\<close>

definition publish_schedule :: "controller \<Rightarrow> rat \<Rightarrow> (lane \<times> int) list \<Rightarrow> error + schedule" where
  "publish_schedule c now green_times =
     (case phase_schedule_loop (timing c) green_times (lanes c) of Inl e \<Rightarrow> Inl e
      | Inr phase_schedule \<Rightarrow>
     (case intersection_id (system c) of None \<Rightarrow> Inl KeyError
      | Some iid \<Rightarrow>
     (case cfg_algorithm (config c) of None \<Rightarrow> Inl KeyError
      | Some alg \<Rightarrow>
          Inr \<lparr> msg_intersection_id = iid,
                msg_cycle_start_ts = now,
                msg_cycle_length = cycle_length (timing c),
                msg_cycle_count = cycle_count (metrics c),
                msg_phase_schedule = phase_schedule,
                msg_algorithm = algorithm_type alg \<rparr>)))"

text \<open>
  One iteration of the \<open>while True\<close> loop of \<open>control_loop\<close>, after the sleep:
  compute, publish, log (the CSV rows do not change the state), then count the
  cycle. An exception leaves the loop; the result is then the exception.
\<close>

definition control_loop_tick :: "controller \<Rightarrow> rat \<Rightarrow> error + (controller \<times> schedule)" where
  "control_loop_tick c now =
     (case compute_green_times c of Inl e \<Rightarrow> Inl e
      | Inr (green_times, avg_densities) \<Rightarrow>
     (case publish_schedule c now green_times of Inl e \<Rightarrow> Inl e
      | Inr message \<Rightarrow>
          Inr (c\<lparr> metrics := (metrics c)\<lparr> cycle_count := cycle_count (metrics c) + 1 \<rparr> \<rparr>,
               message)))"

section \<open>The controller of the all-in-one backend (traffic-api/app.py)\<close>

text \<open>The attributes of an \<open>AdaptiveController\<close> object.\<close>

record adaptive_controller =
  ac_cycle_count :: int
  ac_cycle_length :: int
  ac_min_green :: int
  ac_max_green :: int
  ac_yellow_time :: int
  ac_all_red_time :: int
  ac_lanes :: "lane list"

text \<open>\<open>AdaptiveController.__init__\<close>.\<close>

definition adaptive_init :: adaptive_controller where
  "adaptive_init =
     \<lparr> ac_cycle_count = 0, ac_cycle_length = 60, ac_min_green = 10, ac_max_green = 60,
       ac_yellow_time = 3, ac_all_red_time = 2,
       ac_lanes = [''north'', ''south'', ''east'', ''west''] \<rparr>"

text \<open>An entry of the module-level \<open>sensor_data[lane]\<close> deque.\<close>

record sample =
  sample_density :: rat
  sample_ts :: rat

fun ac_avg_density_loop ::
  "(lane \<rightharpoonup> sample list) \<Rightarrow> lane list \<Rightarrow> (lane \<times> rat) list \<Rightarrow> error + (lane \<times> rat) list" where
  "ac_avg_density_loop sd [] acc = Inr acc"
| "ac_avg_density_loop sd (l # ls) acc =
     (case sd l of None \<Rightarrow> Inl KeyError
      | Some w \<Rightarrow>
          ac_avg_density_loop sd ls
            (AList.update l
               (if w \<noteq> [] then sum_list (map sample_density w) / of_nat (length w) else 0)
               acc))"

fun ac_raw_green_loop ::
  "(lane \<times> rat) list \<Rightarrow> rat \<Rightarrow> int \<Rightarrow> lane list \<Rightarrow> (lane \<times> rat) list
     \<Rightarrow> error + (lane \<times> rat) list" where
  "ac_raw_green_loop avg total_density available [] acc = Inr acc"
| "ac_raw_green_loop avg total_density available (l # ls) acc =
     (case map_of avg l of None \<Rightarrow> Inl KeyError
      | Some a \<Rightarrow>
          (let proportion = a / total_density
           in ac_raw_green_loop avg total_density available ls
                (AList.update l (proportion * of_int available) acc)))"

fun ac_green_times_loop ::
  "adaptive_controller \<Rightarrow> (lane \<times> rat) list \<Rightarrow> lane list \<Rightarrow> (lane \<times> int) list
     \<Rightarrow> error + (lane \<times> int) list" where
  "ac_green_times_loop ac raw_green [] acc = Inr acc"
| "ac_green_times_loop ac raw_green (l # ls) acc =
     (case map_of raw_green l of None \<Rightarrow> Inl KeyError
      | Some green \<Rightarrow>
          ac_green_times_loop ac raw_green ls
            (AList.update l (max (ac_min_green ac) (min (ac_max_green ac) (py_int green))) acc))"

text \<open>The sort keys \<open>avg_density[l]\<close> of \<open>sorted(self.lanes, key=..., reverse=True)\<close>.\<close>

fun ac_sort_keys :: "(lane \<times> rat) list \<Rightarrow> lane list \<Rightarrow> error + (lane \<times> rat) list" where
  "ac_sort_keys avg [] = Inr []"
| "ac_sort_keys avg (l # ls) =
     (case map_of avg l of None \<Rightarrow> Inl KeyError
      | Some a \<Rightarrow>
          (case ac_sort_keys avg ls of Inl e \<Rightarrow> Inl e | Inr rest \<Rightarrow> Inr ((l, a) # rest)))"

definition ac_available_time :: "adaptive_controller \<Rightarrow> int" where
  "ac_available_time ac =
     ac_cycle_length ac - int (length (ac_lanes ac)) * (ac_yellow_time ac + ac_all_red_time ac)"

text \<open>The green times after truncation and clamping, before redistribution.\<close>

definition ac_rounded_green_times ::
  "adaptive_controller \<Rightarrow> (lane \<times> rat) list \<Rightarrow> error + (lane \<times> int) list" where
  "ac_rounded_green_times ac avg =
     (case ac_raw_green_loop avg (sum_list (map snd avg)) (ac_available_time ac) (ac_lanes ac) [] of
        Inl e \<Rightarrow> Inl e
      | Inr raw_green \<Rightarrow> ac_green_times_loop ac raw_green (ac_lanes ac) [])"

text \<open>
  \<open>AdaptiveController.compute_green_times\<close>; the module-level \<open>sensor_data\<close> it reads
  is an argument.
\<close>

definition ac_compute_green_times ::
  "adaptive_controller \<Rightarrow> (lane \<rightharpoonup> sample list) \<Rightarrow> error + (lane \<times> int) list" where
  "ac_compute_green_times ac sd =
     (case ac_avg_density_loop sd (ac_lanes ac) [] of Inl e \<Rightarrow> Inl e
      | Inr avg_density \<Rightarrow>
     (let total_density = sum_list (map snd avg_density) in
      if total_density \<le> 0 then
        Inr (dict_comprehension (\<lambda>l. ac_min_green ac) (ac_lanes ac) [])
      else
     (case ac_rounded_green_times ac avg_density of Inl e \<Rightarrow> Inl e
      | Inr green_times \<Rightarrow>
     (let current_sum = sum_list (map snd green_times);
          diff = ac_available_time ac - current_sum
      in if diff \<noteq> 0 then
           (case ac_sort_keys avg_density (ac_lanes ac) of Inl e \<Rightarrow> Inl e
            | Inr keyed \<Rightarrow> redistribute (map fst (sorted_desc keyed)) green_times diff)
         else Inr green_times))))"

section \<open>A concrete intersection\<close>

text \<open>
  The four-lane intersection with the timing values that app.py hard-codes, as a
  configuration of the proportional controller, and the state \<open>init\<close> builds from it.
\<close>

definition example_timing :: timing_cfg where
  "example_timing =
     \<lparr> cycle_length = 60, yellow_time = 3, all_red_time = 2,
       min_green = 10, max_green = 60, control_interval = 60 \<rparr>"

definition example_config :: config where
  "example_config =
     \<lparr> cfg_system = Some \<lparr> intersection_id = Some ''intersection_1'', qos_level = 1 \<rparr>,
       cfg_timing_parameters = Some example_timing,
       cfg_lanes = Some [''north'', ''south'', ''east'', ''west''],
       cfg_algorithm = Some \<lparr> algorithm_type = ''proportional_allocation'',
                               moving_average_window = 30 \<rparr>,
       cfg_measurement = Some \<lparr> csv_file = Some ''results.csv'' \<rparr> \<rparr>"

definition example_controller :: controller where
  "example_controller =
     \<lparr> config = example_config,
       system = \<lparr> intersection_id = Some ''intersection_1'', qos_level = 1 \<rparr>,
       timing = example_timing,
       lanes = [''north'', ''south'', ''east'', ''west''],
       sensor_data = const_dict [''north'', ''south'', ''east'', ''west''] [],
       last_seq = const_dict [''north'', ''south'', ''east'', ''west''] (- 1),
       metrics = \<lparr> latencies = [], lost_messages = 0, total_messages = 0, cycle_count = 0 \<rparr> \<rparr>"

text \<open>
  A sensor message for lane \<open>l\<close> with sequence number \<open>n\<close>, density \<open>d\<close> and publish
  time \<open>t\<close>.
\<close>

definition sensor_message :: "lane \<Rightarrow> int \<Rightarrow> rat \<Rightarrow> rat \<Rightarrow> message" where
  "sensor_message l n d t =
     \<lparr> lane = Some l, density_pct = Some d, queue_len = Some (py_int (d / 10)),
       seq = Some n, ts = Some t \<rparr>"

text \<open>
  A configuration that is invalid in every way the specification lists: the minimum
  green exceeds the maximum, the lane list is empty, timing values are negative and
  the available time is negative.
\<close>

definition invalid_timing :: timing_cfg where
  "invalid_timing =
     \<lparr> cycle_length = - 60, yellow_time = - 3, all_red_time = 2,
       min_green = 50, max_green = 10, control_interval = 60 \<rparr>"

definition invalid_config :: config where
  "invalid_config =
     \<lparr> cfg_system = Some \<lparr> intersection_id = Some ''intersection_1'', qos_level = 1 \<rparr>,
       cfg_timing_parameters = Some invalid_timing,
       cfg_lanes = Some [],
       cfg_algorithm = Some \<lparr> algorithm_type = ''proportional_allocation'',
                               moving_average_window = 30 \<rparr>,
       cfg_measurement = Some \<lparr> csv_file = Some ''results.csv'' \<rparr> \<rparr>"

text \<open>
  An environment in which the default configuration file holds \<open>cfg\<close> (and no other
  file can be loaded), the MQTT client can be constructed, and \<open>results.csv\<close> (and
  no other path) can be opened for writing.
\<close>

definition env_with :: "config \<Rightarrow> environment" where
  "env_with cfg =
     \<lparr> yaml_load = (\<lambda>f. if f = ''config/controller.yml'' then Inr cfg else Inl OSError),
       mqtt_client = (\<lambda>client_id. None),
       csv_open = (\<lambda>path. if path = ''results.csv'' then None else Some OSError) \<rparr>"

text \<open>Three readings for each of the four lanes, one round per second.\<close>

definition three_readings_per_lane :: "(rat \<times> message) list" where
  "three_readings_per_lane =
     [(1, sensor_message ''north'' 0 80 0), (1, sensor_message ''south'' 0 20 0),
      (1, sensor_message ''east'' 0 0 0), (1, sensor_message ''west'' 0 0 0),
      (2, sensor_message ''north'' 1 80 1), (2, sensor_message ''south'' 1 20 1),
      (2, sensor_message ''east'' 1 0 1), (2, sensor_message ''west'' 1 0 1),
      (3, sensor_message ''north'' 2 80 2), (3, sensor_message ''south'' 2 20 2),
      (3, sensor_message ''east'' 2 0 2), (3, sensor_message ''west'' 2 0 2)]"

text \<open>
  One reading of density 100 on the north lane and none on the others: for the
  proportional controller as a trace to ingest, for the all-in-one backend as the
  contents of its \<open>sensor_data\<close>. Every float operation on these values is exact.
\<close>

definition north_only :: "(rat \<times> message) list" where
  "north_only = [(1, sensor_message ''north'' 0 100 0)]"

definition ac_north_only :: "lane \<rightharpoonup> sample list" where
  "ac_north_only =
     (const_dict [''north'', ''south'', ''east'', ''west''] [])
       (''north'' \<mapsto> [\<lparr> sample_density = 100, sample_ts = 1 \<rparr>])"

section \<open>Properties of startup\<close>

lemma init_example:
  "init (env_with example_config) ''config/controller.yml'' = Inr example_controller"
  by (simp add: init_def env_with_def example_config_def example_controller_def)

text \<open>
  Startup can fail for reasons that have nothing to do with the timing values: a CSV
  path that cannot be opened, or a \<open>system\<close> section without \<open>intersection_id\<close>.
\<close>

lemma init_csv_open_fails:
  "init (env_with (example_config
          \<lparr> cfg_measurement := Some \<lparr> csv_file = Some ''no_such_dir/results.csv'' \<rparr> \<rparr>))
     ''config/controller.yml'' = Inl OSError"
  by (simp add: init_def env_with_def example_config_def)

lemma init_missing_intersection_id:
  "init (env_with (example_config
          \<lparr> cfg_system := Some \<lparr> intersection_id = None, qos_level = 1 \<rparr> \<rparr>))
     ''config/controller.yml'' = Inl KeyError"
  by (simp add: init_def env_with_def example_config_def)

text \<open>
  C9 as stated (every invalid configuration makes startup fail) fails: the
  configuration above has \<open>min_green > max_green\<close>, no lanes, a negative yellow time
  and a negative available time, and startup returns a controller.
\<close>

theorem invalid_config_starts:
  "min_green (timing (projr (init (env_with invalid_config) ''config/controller.yml'')))
     > max_green (timing (projr (init (env_with invalid_config) ''config/controller.yml''))) \<and>
   lanes (projr (init (env_with invalid_config) ''config/controller.yml'')) = [] \<and>
   yellow_time (timing (projr (init (env_with invalid_config) ''config/controller.yml''))) < 0 \<and>
   available_time (timing (projr (init (env_with invalid_config) ''config/controller.yml'')))
     (lanes (projr (init (env_with invalid_config) ''config/controller.yml''))) < 0 \<and>
   \<not> isl (init (env_with invalid_config) ''config/controller.yml'')"
  by (simp add: init_def env_with_def invalid_config_def invalid_timing_def available_time_def)

text \<open>
  C9, amended: startup examines no timing value and no lane list. Take any
  configuration file that has the \<open>timing_parameters\<close> and \<open>lanes\<close> sections and
  replace their contents by arbitrary timing values and an arbitrary lane list
  (\<open>min_green > max_green\<close>, no lanes, negative values, a negative available time
  included), everything else unchanged: startup then ends the same way, with the same
  exception if it failed before and with a controller if it succeeded before, and
  that controller holds the new values exactly as given. A started controller always
  holds the timing values and the lane list of its configuration file as they are.
\<close>

theorem init_examines_no_timing_value:
  assumes "yaml_load env config_file = Inr cfg"
    and "cfg_timing_parameters cfg = Some tm" and "cfg_lanes cfg = Some ls"
  shows "init (env\<lparr> yaml_load := (yaml_load env)
                 (config_file := Inr (cfg\<lparr> cfg_timing_parameters := Some tm',
                                           cfg_lanes := Some ls' \<rparr>)) \<rparr>) config_file
           = (case init env config_file of Inl e \<Rightarrow> Inl e
              | Inr c \<Rightarrow>
                  Inr (c\<lparr> config := cfg\<lparr> cfg_timing_parameters := Some tm',
                                         cfg_lanes := Some ls' \<rparr>,
                          timing := tm', lanes := ls',
                          sensor_data := const_dict ls' [],
                          last_seq := const_dict ls' (- 1) \<rparr>)) \<and>
         (case init env config_file of Inl e \<Rightarrow> True
          | Inr c \<Rightarrow> config c = cfg \<and> timing c = tm \<and> lanes c = ls)"
  using assms by (simp add: init_def split: option.splits)

theorem init_examines_no_timing_value_witness:
  "yaml_load (env_with example_config) ''config/controller.yml'' = Inr example_config \<and>
   cfg_timing_parameters example_config = Some example_timing \<and>
   cfg_lanes example_config = Some [''north'', ''south'', ''east'', ''west''] \<and>
   init (env_with example_config) ''config/controller.yml'' = Inr example_controller \<and>
   init ((env_with example_config)\<lparr> yaml_load := (yaml_load (env_with example_config))
           (''config/controller.yml'' :=
              Inr (example_config\<lparr> cfg_timing_parameters := Some invalid_timing,
                                    cfg_lanes := Some [] \<rparr>)) \<rparr>) ''config/controller.yml''
     = Inr (example_controller
             \<lparr> config := example_config\<lparr> cfg_timing_parameters := Some invalid_timing,
                                          cfg_lanes := Some [] \<rparr>,
               timing := invalid_timing, lanes := [],
               sensor_data := const_dict [] [], last_seq := const_dict [] (- 1) \<rparr>)"
proof -
  have a: "yaml_load (env_with example_config) ''config/controller.yml'' = Inr example_config"
    by (simp add: env_with_def)
  have b: "cfg_timing_parameters example_config = Some example_timing"
    by (simp add: example_config_def)
  have c: "cfg_lanes example_config = Some [''north'', ''south'', ''east'', ''west'']"
    by (simp add: example_config_def)
  have d: "init (env_with example_config) ''config/controller.yml'' = Inr example_controller"
    by (simp add: init_def env_with_def example_config_def example_controller_def)
  show ?thesis
    using a b c d init_examines_no_timing_value[OF a b c, where tm'=invalid_timing and ls'="[]"]
    by simp
qed

section \<open>Loss accounting\<close>

text \<open>
  What one call of \<open>on_message\<close> does to the sequence state of the lane it names,
  whenever the message reaches the loss check: the loss counter moves by
  \<open>current_seq - expected_seq\<close> on every mismatch once the lane has a non-negative
  last sequence number, whatever the sign of that difference.
\<close>

lemma on_message_seq:
  assumes "lane m = Some l" and "ts m = Some tp" and "seq m = Some n"
    and "last_seq c l = Some p"
  shows "last_seq (fst (on_message c t m)) l = Some n \<and>
         lost_messages (metrics (fst (on_message c t m))) =
           lost_messages (metrics c) + (if p \<ge> 0 \<and> n \<noteq> p + 1 then n - (p + 1) else 0)"
  using assms by (simp add: on_message_def Let_def split: option.splits)

text \<open>
  C2 (the loss counter never decreases; the trace \<open>[0,1,2,2,3]\<close> leaves it at 0).
  The code at that trace: the duplicate 2 arrives when 3 is expected, the handler
  adds \<open>2 - 3\<close> to the counter, and the counter ends at \<open>-1\<close>, below its value
  before the duplicate.
\<close>

theorem duplicate_decrements_lost_messages:
  "lost_messages (metrics (ingest example_controller
      [(1, sensor_message ''north'' 0 50 0), (2, sensor_message ''north'' 1 50 1),
       (3, sensor_message ''north'' 2 50 2)])) = 0 \<and>
   lost_messages (metrics (ingest example_controller
      [(1, sensor_message ''north'' 0 50 0), (2, sensor_message ''north'' 1 50 1),
       (3, sensor_message ''north'' 2 50 2), (4, sensor_message ''north'' 2 50 3),
       (5, sensor_message ''north'' 3 50 4)])) = - 1"
  by (simp add: example_controller_def example_config_def sensor_message_def
      on_message_def const_dict_def Let_def)

text \<open>
  C3 as stated (the trace \<open>[0,1,2,5,6]\<close> yields a loss count of 3) fails: from the
  started controller the count is not 3.
\<close>

theorem gap_trace_not_three:
  "lost_messages (metrics (ingest example_controller
      [(1, sensor_message ''north'' 0 50 0), (2, sensor_message ''north'' 1 50 1),
       (3, sensor_message ''north'' 2 50 2), (4, sensor_message ''north'' 5 50 3),
       (5, sensor_message ''north'' 6 50 4)])) \<noteq> 3"
  by (simp add: example_controller_def example_config_def sensor_message_def
      on_message_def const_dict_def Let_def)

text \<open>
  C3, amended: for one lane whose last sequence number is unset (\<open>-1\<close>), ingesting
  readings with sequence numbers \<open>[0,1,2,5,6]\<close> in that order adds exactly 2 to the
  loss counter (the two missing numbers 3 and 4), and the first reading of the lane
  adds nothing. The receipt times and the other fields of the messages are arbitrary.
\<close>

theorem gap_trace_loses_two:
  assumes "last_seq c l = Some (- 1)"
    and "lane m0 = Some l" and "lane m1 = Some l" and "lane m2 = Some l"
    and "lane m3 = Some l" and "lane m4 = Some l"
    and "ts m0 \<noteq> None" and "ts m1 \<noteq> None" and "ts m2 \<noteq> None"
    and "ts m3 \<noteq> None" and "ts m4 \<noteq> None"
    and "seq m0 = Some 0" and "seq m1 = Some 1" and "seq m2 = Some 2"
    and "seq m3 = Some 5" and "seq m4 = Some 6"
  shows "lost_messages (metrics (ingest c [(t0, m0)])) = lost_messages (metrics c) \<and>
         lost_messages (metrics (ingest c [(t0, m0), (t1, m1), (t2, m2), (t3, m3), (t4, m4)]))
           = lost_messages (metrics c) + 2"
proof -
  obtain p0 p1 p2 p3 p4 where ps: "ts m0 = Some p0" "ts m1 = Some p1" "ts m2 = Some p2"
      "ts m3 = Some p3" "ts m4 = Some p4"
    using assms by auto
  define c1 where "c1 = fst (on_message c t0 m0)"
  define c2 where "c2 = fst (on_message c1 t1 m1)"
  define c3 where "c3 = fst (on_message c2 t2 m2)"
  define c4 where "c4 = fst (on_message c3 t3 m3)"
  define c5 where "c5 = fst (on_message c4 t4 m4)"
  have s1: "last_seq c1 l = Some 0 \<and> lost_messages (metrics c1) = lost_messages (metrics c)"
    unfolding c1_def
    using on_message_seq[OF assms(2) ps(1) assms(12) assms(1), of t0] by simp
  have s2: "last_seq c2 l = Some 1 \<and> lost_messages (metrics c2) = lost_messages (metrics c)"
    unfolding c2_def
    using on_message_seq[OF assms(3) ps(2) assms(13) conjunct1[OF s1], of t1] s1 by simp
  have s3: "last_seq c3 l = Some 2 \<and> lost_messages (metrics c3) = lost_messages (metrics c)"
    unfolding c3_def
    using on_message_seq[OF assms(4) ps(3) assms(14) conjunct1[OF s2], of t2] s2 by simp
  have s4: "last_seq c4 l = Some 5 \<and> lost_messages (metrics c4) = lost_messages (metrics c) + 2"
    unfolding c4_def
    using on_message_seq[OF assms(5) ps(4) assms(15) conjunct1[OF s3], of t3] s3 by simp
  have s5: "last_seq c5 l = Some 6 \<and> lost_messages (metrics c5) = lost_messages (metrics c) + 2"
    unfolding c5_def
    using on_message_seq[OF assms(6) ps(5) assms(16) conjunct1[OF s4], of t4] s4 by simp
  show ?thesis using s1 s5 by (simp add: c1_def c2_def c3_def c4_def c5_def)
qed

theorem gap_trace_loses_two_witness:
  "last_seq example_controller ''north'' = Some (- 1) \<and>
   lost_messages (metrics (ingest example_controller
      [(1, sensor_message ''north'' 0 50 0)])) = 0 \<and>
   lost_messages (metrics (ingest example_controller
      [(1, sensor_message ''north'' 0 50 0), (2, sensor_message ''north'' 1 50 1),
       (3, sensor_message ''north'' 2 50 2), (4, sensor_message ''north'' 5 50 3),
       (5, sensor_message ''north'' 6 50 4)])) = 2"
proof -
  have unset: "last_seq example_controller ''north'' = Some (- 1)"
    by (simp add: example_controller_def const_dict_def)
  have zero: "lost_messages (metrics example_controller) = 0"
    by (simp add: example_controller_def)
  show ?thesis
    using unset zero
      gap_trace_loses_two[of example_controller "''north''"
        "sensor_message ''north'' 0 50 0" "sensor_message ''north'' 1 50 1"
        "sensor_message ''north'' 2 50 2" "sensor_message ''north'' 5 50 3"
        "sensor_message ''north'' 6 50 4" 1 2 3 4 5]
    by (simp add: sensor_message_def)
qed

section \<open>Malformed messages\<close>




section \<open>The latency samples and the counters\<close>

lemma on_message_counters:
  "length (latencies (metrics (fst (on_message c t m)))) =
     length (latencies (metrics c))
       + nat (total_messages (metrics (fst (on_message c t m))) - total_messages (metrics c)) \<and>
   (total_messages (metrics (fst (on_message c t m))) = total_messages (metrics c) \<or>
    total_messages (metrics (fst (on_message c t m))) = total_messages (metrics c) + 1) \<and>
   cycle_count (metrics (fst (on_message c t m))) = cycle_count (metrics c) \<and>
   take (length (latencies (metrics c))) (latencies (metrics (fst (on_message c t m))))
     = latencies (metrics c)"
  by (simp add: on_message_def Let_def split: option.splits)

lemma valid_adds_sample:
  assumes "lane m = Some l" and "ts m = Some tp" and "seq m = Some n"
    and "last_seq c l \<noteq> None"
  shows "length (latencies (metrics (fst (on_message c t m))))
           = Suc (length (latencies (metrics c))) \<and>
         last_seq (fst (on_message c t m)) l \<noteq> None"
  using assms by (auto simp add: on_message_def Let_def split: option.splits)

lemma replicate_samples:
  assumes "lane m = Some l" and "ts m = Some tp" and "seq m = Some n"
    and "last_seq c l \<noteq> None"
  shows "length (latencies (metrics (ingest c (replicate k (t, m)))))
           = length (latencies (metrics c)) + k"
  using assms(4)
proof (induction k arbitrary: c)
  case 0
  then show ?case by simp
next
  case (Suc k)
  have s: "length (latencies (metrics (fst (on_message c t m))))
             = Suc (length (latencies (metrics c)))"
    "last_seq (fst (on_message c t m)) l \<noteq> None"
    using valid_adds_sample[OF assms(1-3) Suc.prems, of t] by blast+
  show ?case using Suc.IH[OF s(2)] s(1) by simp
qed

text \<open>
  C8 as stated (there is a fixed capacity that the number of retained latency
  samples never exceeds) fails: \<open>latencies\<close> is a plain list, and no capacity bounds
  it over all traces.
\<close>

theorem latencies_unbounded:
  "\<not> (\<exists>capacity. \<forall>tr.
        length (latencies (metrics (ingest example_controller tr))) \<le> capacity)"
proof
  assume "\<exists>capacity. \<forall>tr.
    length (latencies (metrics (ingest example_controller tr))) \<le> capacity"
  then obtain capacity where
    b: "\<And>tr. length (latencies (metrics (ingest example_controller tr))) \<le> capacity"
    by blast
  have "last_seq example_controller ''north'' \<noteq> None"
    by (simp add: example_controller_def const_dict_def)
  then have "length (latencies (metrics (ingest example_controller
       (replicate (Suc capacity) (0, sensor_message ''north'' 0 50 0))))) =
       length (latencies (metrics example_controller)) + Suc capacity"
    by (intro replicate_samples[where l="''north''" and tp=0 and n=0])
      (simp_all add: sensor_message_def)
  then show False
    using b[of "replicate (Suc capacity) (0, sensor_message ''north'' 0 50 0)"] by simp
qed

text \<open>
  C8, amended: over every sequence of ingest operations the latency list only grows,
  by exactly one sample for each message counted in \<open>total_messages\<close>, and keeps
  every earlier sample; \<open>total_messages\<close> never decreases and ingestion leaves
  \<open>cycle_count\<close> alone. There is no capacity.
\<close>

theorem ingest_counters:
  "int (length (latencies (metrics (ingest c tr)))) - int (length (latencies (metrics c)))
     = total_messages (metrics (ingest c tr)) - total_messages (metrics c) \<and>
   total_messages (metrics c) \<le> total_messages (metrics (ingest c tr)) \<and>
   cycle_count (metrics (ingest c tr)) = cycle_count (metrics c) \<and>
   take (length (latencies (metrics c))) (latencies (metrics (ingest c tr)))
     = latencies (metrics c)"
proof (induction tr arbitrary: c)
  case Nil
  then show ?case by simp
next
  case (Cons a tr)
  obtain t m where a: "a = (t, m)" by (cases a)
  define c1 where "c1 = fst (on_message c t m)"
  have step: "length (latencies (metrics c1)) =
     length (latencies (metrics c))
       + nat (total_messages (metrics c1) - total_messages (metrics c))"
    "total_messages (metrics c1) = total_messages (metrics c) \<or>
     total_messages (metrics c1) = total_messages (metrics c) + 1"
    "cycle_count (metrics c1) = cycle_count (metrics c)"
    "take (length (latencies (metrics c))) (latencies (metrics c1)) = latencies (metrics c)"
    using on_message_counters[of c t m] unfolding c1_def by blast+
  have ih: "int (length (latencies (metrics (ingest c1 tr))))
        - int (length (latencies (metrics c1)))
      = total_messages (metrics (ingest c1 tr)) - total_messages (metrics c1)"
    "total_messages (metrics c1) \<le> total_messages (metrics (ingest c1 tr))"
    "cycle_count (metrics (ingest c1 tr)) = cycle_count (metrics c1)"
    "take (length (latencies (metrics c1))) (latencies (metrics (ingest c1 tr)))
      = latencies (metrics c1)"
    using Cons.IH[of c1] by blast+
  have le: "length (latencies (metrics c)) \<le> length (latencies (metrics c1))"
    using step(1) by simp
  have "take (length (latencies (metrics c))) (latencies (metrics (ingest c1 tr)))
      = take (length (latencies (metrics c)))
          (take (length (latencies (metrics c1))) (latencies (metrics (ingest c1 tr))))"
    using le by (simp add: min_def)
  also have "\<dots> = latencies (metrics c)" using ih(4) step(4) by simp
  finally have pre: "take (length (latencies (metrics c)))
      (latencies (metrics (ingest c1 tr))) = latencies (metrics c)" .
  have ing: "ingest c (a # tr) = ingest c1 tr" by (simp add: a c1_def)
  show ?case unfolding ing using step ih pre by auto
qed

theorem ingest_counters_witness:
  "length (latencies (metrics (ingest example_controller three_readings_per_lane))) = 12 \<and>
   total_messages (metrics (ingest example_controller three_readings_per_lane)) = 12 \<and>
   cycle_count (metrics (ingest example_controller three_readings_per_lane)) = 0"
proof -
  have tm: "total_messages (metrics (ingest example_controller three_readings_per_lane)) = 12"
    by (simp add: example_controller_def example_config_def sensor_message_def
        three_readings_per_lane_def on_message_def const_dict_def Let_def)
  have z: "latencies (metrics example_controller) = [] \<and>
      total_messages (metrics example_controller) = 0 \<and>
      cycle_count (metrics example_controller) = 0"
    by (simp add: example_controller_def)
  show ?thesis
    using tm z ingest_counters[of example_controller three_readings_per_lane] by simp
qed

section \<open>Window pruning\<close>

text \<open>
  The averages \<open>compute_green_times\<close> works with: for a configured lane, the mean of
  the lane's stored window and nothing else.
\<close>

lemma avg_loop_lookup:
  "avg_densities_loop sd ls acc = Inr avg \<Longrightarrow>
     map_of avg l = (if l \<in> set ls then map_option window_average (sd l) else map_of acc l)"
proof (induction ls arbitrary: acc)
  case Nil
  then show ?case by simp
next
  case (Cons a ls)
  then show ?case
    by (auto simp add: AList.update_conv' split: option.splits if_splits)
qed

text \<open>
  C7: let a reading \<open>r\<close> be in the window of lane \<open>l\<close>, recorded at a time not
  after \<open>T\<close> (its stored timestamp), and let a later reading for \<open>l\<close> be
  ingested at time \<open>T'\<close> with \<open>T' > T + window\<close>. Then the lane's window
  afterwards is the old window and the new entry, filtered against \<open>T' - window\<close>,
  the time of this insertion; \<open>r\<close> is not in it; and the average that
  \<open>compute_green_times\<close> then uses for \<open>l\<close> is the mean of exactly that window.
  No clock is read when the average is taken: it is a function of the stored state.
\<close>

theorem stale_reading_pruned:
  assumes ok: "on_message c T' m = (c', None)"
    and ln: "lane m = Some l"
    and alg: "cfg_algorithm (config c) = Some alg"
    and w: "sensor_data c l = Some w"
    and r: "r \<in> set w" "timestamp r \<le> T"
    and late: "T + moving_average_window alg < T'"
  shows "\<exists>e. sensor_data c' l =
            Some (filter (\<lambda>d. T' - moving_average_window alg < timestamp d) (w @ [e])) \<and>
          r \<notin> set (filter (\<lambda>d. T' - moving_average_window alg < timestamp d) (w @ [e])) \<and>
          (\<forall>g avg. compute_green_times c' = Inr (g, avg) \<longrightarrow> l \<in> set (lanes c') \<longrightarrow>
             map_of avg l = Some (window_average
               (filter (\<lambda>d. T' - moving_average_window alg < timestamp d) (w @ [e]))))"
proof -
  have "sensor_data c' l =
      Some (filter (\<lambda>d. T' - moving_average_window alg < timestamp d)
        (w @ [\<lparr> density = the (density_pct m),
                 queue = (case queue_len m of None \<Rightarrow> 0 | Some q \<Rightarrow> q),
                 timestamp = the (ts m) \<rparr>]))"
    using ok ln alg w
    by (auto simp add: on_message_def Let_def simp del: filter_append filter.simps
        split: option.splits)
  then obtain e where
    sd: "sensor_data c' l =
      Some (filter (\<lambda>d. T' - moving_average_window alg < timestamp d) (w @ [e]))"
    by blast
  have nr: "r \<notin> set (filter (\<lambda>d. T' - moving_average_window alg < timestamp d) (w @ [e]))"
    using r late by auto
  have av: "map_of avg l = Some (window_average
               (filter (\<lambda>d. T' - moving_average_window alg < timestamp d) (w @ [e])))"
    if "compute_green_times c' = Inr (g, avg)" "l \<in> set (lanes c')" for g avg
  proof -
    from that(1) have "avg_densities_loop (sensor_data c') (lanes c') [] = Inr avg"
      by (auto simp add: compute_green_times_def Let_def split: sum.splits if_splits)
    from avg_loop_lookup[OF this, of l] that(2) sd show ?thesis by simp
  qed
  show ?thesis using sd nr av by blast
qed

theorem stale_reading_pruned_witness:
  "sensor_data (ingest example_controller [(1, sensor_message ''north'' 0 80 0)]) ''north''
     = Some [\<lparr> density = 80, queue = 8, timestamp = 0 \<rparr>] \<and>
   snd (on_message (ingest example_controller [(1, sensor_message ''north'' 0 80 0)]) 40
          (sensor_message ''north'' 1 20 39)) = None \<and>
   (0::rat) + 30 < 40 \<and>
   sensor_data (fst (on_message (ingest example_controller [(1, sensor_message ''north'' 0 80 0)]) 40
          (sensor_message ''north'' 1 20 39))) ''north''
     = Some [\<lparr> density = 20, queue = 2, timestamp = 39 \<rparr>]"
proof -
  define c1 where "c1 = ingest example_controller [(1, sensor_message ''north'' 0 80 0)]"
  define m where "m = sensor_message ''north'' 1 20 39"
  have w: "sensor_data c1 ''north'' = Some [\<lparr> density = 80, queue = 8, timestamp = 0 \<rparr>]"
    by (simp add: c1_def example_controller_def example_config_def sensor_message_def
        on_message_def const_dict_def Let_def py_int_def)
  have alg: "cfg_algorithm (config c1) = Some \<lparr> algorithm_type = ''proportional_allocation'',
                               moving_average_window = 30 \<rparr>"
    by (simp add: c1_def example_controller_def example_config_def sensor_message_def
        on_message_def const_dict_def Let_def)
  have res: "snd (on_message c1 40 m) = None \<and>
      sensor_data (fst (on_message c1 40 m)) ''north''
        = Some [\<lparr> density = 20, queue = 2, timestamp = 39 \<rparr>]"
    by (simp add: c1_def m_def example_controller_def example_config_def sensor_message_def
        on_message_def const_dict_def Let_def py_int_def)
  have ok: "on_message c1 40 m = (fst (on_message c1 40 m), None)"
    using res by (simp add: prod_eq_iff)
  have ln: "lane m = Some ''north''" by (simp add: m_def sensor_message_def)
  have "\<exists>e. sensor_data (fst (on_message c1 40 m)) ''north'' =
            Some (filter (\<lambda>d. 40 - 30 < timestamp d) ([\<lparr> density = 80, queue = 8, timestamp = 0 \<rparr>] @ [e]))"
    using stale_reading_pruned[OF ok ln alg w, of "\<lparr> density = 80, queue = 8, timestamp = 0 \<rparr>" 0]
    by auto
  then show ?thesis using w res unfolding c1_def m_def by simp
qed

section \<open>Cycle accounting\<close>

text \<open>
  C5 as stated (the schedule published during a tick carries the new value of the
  cycle counter) fails: after three readings per lane, the tick succeeds, the counter
  goes up by one, and the published \<open>cycle_count\<close> differs from the new value.
\<close>

theorem published_count_not_new_value:
  "\<not> isl (control_loop_tick (ingest example_controller three_readings_per_lane) 60) \<and>
   cycle_count (metrics (fst (projr
       (control_loop_tick (ingest example_controller three_readings_per_lane) 60))))
     = cycle_count (metrics (ingest example_controller three_readings_per_lane)) + 1 \<and>
   msg_cycle_count (snd (projr
       (control_loop_tick (ingest example_controller three_readings_per_lane) 60)))
     \<noteq> cycle_count (metrics (fst (projr
       (control_loop_tick (ingest example_controller three_readings_per_lane) 60))))"
  by code_simp

text \<open>
  C5, amended: every control-loop tick that completes (allocation computed and
  schedule built) increases \<open>cycle_count\<close> by exactly 1, and the schedule published
  during that tick carries the value the counter had before the increment, that is,
  the new value minus one: cycles are numbered from 0.
\<close>

theorem tick_publishes_old_count:
  assumes "control_loop_tick c now = Inr (c', msg)"
  shows "cycle_count (metrics c') = cycle_count (metrics c) + 1 \<and>
         msg_cycle_count msg = cycle_count (metrics c) \<and>
         msg_cycle_count msg = cycle_count (metrics c') - 1"
  using assms
  by (auto simp add: control_loop_tick_def publish_schedule_def
      split: sum.splits option.splits prod.splits)

theorem tick_publishes_old_count_witness:
  "\<not> isl (control_loop_tick (ingest example_controller three_readings_per_lane) 60) \<and>
   cycle_count (metrics (ingest example_controller three_readings_per_lane)) = 0 \<and>
   cycle_count (metrics (fst (projr
       (control_loop_tick (ingest example_controller three_readings_per_lane) 60)))) = 1 \<and>
   msg_cycle_count (snd (projr
       (control_loop_tick (ingest example_controller three_readings_per_lane) 60))) = 0"
proof -
  define c where "c = ingest example_controller three_readings_per_lane"
  have ran: "\<not> isl (control_loop_tick c 60)"
    unfolding c_def by code_simp
  have zero: "cycle_count (metrics c) = 0"
    unfolding c_def by code_simp
  have ok: "control_loop_tick c 60
      = Inr (fst (projr (control_loop_tick c 60)), snd (projr (control_loop_tick c 60)))"
    using ran by (cases "control_loop_tick c 60") simp_all
  show ?thesis
    using ran zero tick_publishes_old_count[OF ok] unfolding c_def by simp
qed

section \<open>Redistribution\<close>

text \<open>
  Facts about the dict operations and the redistribution loop that both controllers
  share.
\<close>

lemma sum_update:
  "map_of g k = Some (v::int) \<Longrightarrow>
     sum_list (map snd (AList.update k v' g)) = sum_list (map snd g) - v + v'"
  by (induction g) (auto split: if_splits)

lemma keys_update:
  "map_of g k = Some v \<Longrightarrow> map fst (AList.update k v' g) = map fst g"
  by (induction g) (auto split: if_splits)

lemma redistribute_keys:
  "redistribute ls g diff = Inr g' \<Longrightarrow> map fst g' = map fst g"
proof (induction ls arbitrary: g diff)
  case Nil then show ?case by simp
next
  case (Cons a ls)
  show ?case
  proof (cases "diff = 0")
    case True with Cons.prems show ?thesis by simp
  next
    case False
    with Cons.prems obtain v where v: "map_of g a = Some v"
      by (auto simp add: Let_def split: option.splits)
    from Cons.prems False v have
      "redistribute ls (AList.update a (v + (if diff > 0 then 1 else - 1)) g)
         (diff - (if diff > 0 then 1 else - 1)) = Inr g'"
      by (simp add: Let_def)
    from Cons.IH[OF this] keys_update[OF v] show ?thesis by simp
  qed
qed

lemma redistribute_lookup:
  "redistribute ls g diff = Inr g' \<Longrightarrow> distinct ls \<Longrightarrow> map_of g l = Some v \<Longrightarrow>
     \<exists>v'. map_of g' l = Some v' \<and> (if l \<in> set ls then \<bar>v' - v\<bar> \<le> 1 else v' = v)"
proof (induction ls arbitrary: g diff v)
  case Nil then show ?case by simp
next
  case (Cons a ls)
  show ?case
  proof (cases "diff = 0")
    case True with Cons.prems show ?thesis by simp
  next
    case False
    define adj :: int where "adj = (if diff > 0 then 1 else - 1)"
    from Cons.prems False obtain va where va: "map_of g a = Some va"
      by (auto simp add: Let_def split: option.splits)
    from Cons.prems False va have rec:
      "redistribute ls (AList.update a (va + adj) g) (diff - adj) = Inr g'"
      by (simp add: Let_def adj_def)
    have dl: "distinct ls" and anl: "a \<notin> set ls" using Cons.prems(2) by auto
    show ?thesis
    proof (cases "l = a")
      case True
      then have "map_of (AList.update a (va + adj) g) l = Some (v + adj)"
        using va Cons.prems(3) by (simp add: AList.update_conv')
      from Cons.IH[OF rec dl this] True anl
      obtain v' where "map_of g' l = Some v'" "v' = v + adj" by auto
      then show ?thesis using True by (auto simp add: adj_def)
    next
      case False
      then have "map_of (AList.update a (va + adj) g) l = Some v"
        using Cons.prems(3) by (simp add: AList.update_conv')
      from Cons.IH[OF rec dl this] False show ?thesis by auto
    qed
  qed
qed

lemma redistribute_sum:
  "redistribute ls g diff = Inr g' \<Longrightarrow>
     sum_list (map snd g') = sum_list (map snd g) +
       (if \<bar>diff\<bar> \<le> int (length ls) then diff
        else if diff > 0 then int (length ls) else - int (length ls))"
proof (induction ls arbitrary: g diff)
  case Nil then show ?case by simp
next
  case (Cons a ls)
  show ?case
  proof (cases "diff = 0")
    case True with Cons.prems show ?thesis by simp
  next
    case False
    define adj :: int where "adj = (if diff > 0 then 1 else - 1)"
    from Cons.prems False obtain va where va: "map_of g a = Some va"
      by (auto simp add: Let_def split: option.splits)
    from Cons.prems False va have rec:
      "redistribute ls (AList.update a (va + adj) g) (diff - adj) = Inr g'"
      by (simp add: Let_def adj_def)
    have s: "sum_list (map snd (AList.update a (va + adj) g)) = sum_list (map snd g) + adj"
      using sum_update[OF va, of "va + adj"] by simp
    show ?thesis using Cons.IH[OF rec] s False by (auto simp add: adj_def split: if_splits)
  qed
qed

lemma redistribute_returns:
  "set ls \<subseteq> fst ` set g \<Longrightarrow> \<exists>g'. redistribute ls g diff = Inr g'"
proof (induction ls arbitrary: g diff)
  case Nil then show ?case by simp
next
  case (Cons a ls)
  from Cons.prems have "a \<in> fst ` set g" by simp
  then obtain va where va: "map_of g a = Some va"
    by (metis domD dom_map_of_conv_image_fst)
  have "set ls \<subseteq> fst ` set (AList.update a v' g)" for v'
    using Cons.prems by (auto simp add: AList.dom_update)
  from Cons.IH[OF this] va show ?case by (simp add: Let_def)
qed


lemma length_update: "length (AList.update k v al) \<le> Suc (length al)"
  by (induction al) auto

lemma avg_loop_keys:
  "avg_densities_loop sd ls acc = Inr avg \<Longrightarrow> distinct (map fst acc) \<Longrightarrow>
     distinct (map fst avg) \<and> fst ` set avg = fst ` set acc \<union> set ls \<and>
     length avg \<le> length acc + length ls"
proof (induction ls arbitrary: acc)
  case Nil then show ?case by simp
next
  case (Cons a ls)
  from Cons.prems(1) obtain w where w: "sd a = Some w"
    and rec: "avg_densities_loop sd ls (AList.update a (window_average w) acc) = Inr avg"
    by (auto split: option.splits)
  have d: "distinct (map fst (AList.update a (window_average w) acc))"
    using Cons.prems(2) by (rule AList.distinct_update)
  from Cons.IH[OF rec d] length_update[of a "window_average w" acc]
  show ?case by (auto simp add: AList.dom_update)
qed

lemma raw_loop_keys:
  "raw_greens_loop tm avg td av ls acc = Inr raw \<Longrightarrow>
     fst ` set raw = fst ` set acc \<union> set ls"
proof (induction ls arbitrary: acc)
  case Nil then show ?case by simp
next
  case (Cons a ls)
  from Cons.prems obtain x where
    rec: "raw_greens_loop tm avg td av ls (AList.update a x acc) = Inr raw"
    by (auto simp add: Let_def split: option.splits)
  from Cons.IH[OF rec] show ?case by (auto simp add: AList.dom_update)
qed

lemma rounded_keys:
  "rounded_green_times tm ls avg = Inr pre \<Longrightarrow> fst ` set pre = set ls"
proof -
  assume a: "rounded_green_times tm ls avg = Inr pre"
  then obtain raw where
    r: "raw_greens_loop tm avg (sum_list (map snd avg)) (available_time tm ls) ls [] = Inr raw"
    and p: "pre = map (\<lambda>(l, g). (l, py_int g)) raw"
    by (auto simp add: rounded_green_times_def split: sum.splits)
  have "fst ` set pre = fst ` set raw" unfolding p by force
  with raw_loop_keys[OF r] show ?thesis by simp
qed

lemma distinct_keys_sorted_desc:
  "distinct (map fst xs) \<Longrightarrow> distinct (map fst (sorted_desc xs))"
  by (simp add: sorted_desc_def distinct_map)

text \<open>
  The proportional controller: the redistribution changes each lane by at most one
  second and the sum by at most the number of lanes.
\<close>

lemma edge_redistribution_bounded:
  assumes c: "compute_green_times c = Inr (g, avg)" and pos: "0 < sum_list (map snd avg)"
  shows "\<exists>pre. rounded_green_times (timing c) (lanes c) avg = Inr pre \<and>
           fst ` set pre = set (lanes c) \<and> map fst g = map fst pre \<and>
           (\<forall>l v. map_of pre l = Some v \<longrightarrow> (\<exists>v'. map_of g l = Some v' \<and> \<bar>v' - v\<bar> \<le> 1)) \<and>
           \<bar>sum_list (map snd g) - sum_list (map snd pre)\<bar> \<le> int (length (lanes c))"
proof -
  from c have al: "avg_densities_loop (sensor_data c) (lanes c) [] = Inr avg"
    by (auto simp add: compute_green_times_def Let_def split: sum.splits if_splits)
  from c al pos obtain pre where
    pre: "rounded_green_times (timing c) (lanes c) avg = Inr pre"
    by (auto simp add: compute_green_times_def Let_def split: sum.splits if_splits)
  define diff where "diff = available_time (timing c) (lanes c) - sum_list (map snd pre)"
  from c al pos pre have fin:
    "(if diff \<noteq> 0 then redistribute (map fst (sorted_desc avg)) pre diff else Inr pre) = Inr g"
    by (auto simp add: compute_green_times_def Let_def diff_def split: sum.splits if_splits)
  have keys: "fst ` set pre = set (lanes c)" using rounded_keys[OF pre] .
  from avg_loop_keys[OF al] have davg: "distinct (map fst avg)"
    and lavg: "length avg \<le> length (lanes c)" by auto
  show ?thesis
  proof (cases "diff = 0")
    case True
    with fin have "g = pre" by simp
    with pre keys show ?thesis by auto
  next
    case False
    with fin have r: "redistribute (map fst (sorted_desc avg)) pre diff = Inr g" by simp
    have d: "distinct (map fst (sorted_desc avg))"
      using davg by (rule distinct_keys_sorted_desc)
    have len: "length (map fst (sorted_desc avg)) \<le> length (lanes c)"
      using lavg by (simp add: sorted_desc_def)
    have look: "\<exists>v'. map_of g l = Some v' \<and> \<bar>v' - v\<bar> \<le> 1" if "map_of pre l = Some v" for l v
      using redistribute_lookup[OF r d that] by (auto split: if_splits)
    have "\<bar>sum_list (map snd g) - sum_list (map snd pre)\<bar> \<le> int (length (map fst (sorted_desc avg)))"
      using redistribute_sum[OF r] by (auto split: if_splits)
    with len have s: "\<bar>sum_list (map snd g) - sum_list (map snd pre)\<bar> \<le> int (length (lanes c))"
      by linarith
    show ?thesis using pre keys redistribute_keys[OF r] look s by blast
  qed
qed

lemma ac_green_loop_keys:
  "ac_green_times_loop ac raw ls acc = Inr pre \<Longrightarrow>
     fst ` set pre = fst ` set acc \<union> set ls"
proof (induction ls arbitrary: acc)
  case Nil then show ?case by simp
next
  case (Cons a ls)
  from Cons.prems obtain x where
    rec: "ac_green_times_loop ac raw ls (AList.update a x acc) = Inr pre"
    by (auto split: option.splits)
  from Cons.IH[OF rec] show ?case by (auto simp add: AList.dom_update)
qed

lemma ac_rounded_keys:
  "ac_rounded_green_times ac avg = Inr pre \<Longrightarrow> fst ` set pre = set (ac_lanes ac)"
  using ac_green_loop_keys[of ac _ "ac_lanes ac" "[]" pre]
  by (auto simp add: ac_rounded_green_times_def split: sum.splits)

lemma ac_sort_keys_fst:
  "ac_sort_keys avg ls = Inr keyed \<Longrightarrow> map fst keyed = ls"
  by (induction ls arbitrary: keyed) (auto split: option.splits sum.splits)

text \<open>The same bounds for the controller of the all-in-one backend.\<close>

lemma ac_redistribution_bounded:
  assumes c: "ac_compute_green_times ac sd = Inr g"
    and al: "ac_avg_density_loop sd (ac_lanes ac) [] = Inr avg"
    and pos: "0 < sum_list (map snd avg)"
    and dl: "distinct (ac_lanes ac)"
  shows "\<exists>pre. ac_rounded_green_times ac avg = Inr pre \<and>
           fst ` set pre = set (ac_lanes ac) \<and> map fst g = map fst pre \<and>
           (\<forall>l v. map_of pre l = Some v \<longrightarrow> (\<exists>v'. map_of g l = Some v' \<and> \<bar>v' - v\<bar> \<le> 1)) \<and>
           \<bar>sum_list (map snd g) - sum_list (map snd pre)\<bar> \<le> int (length (ac_lanes ac))"
proof -
  from c al pos obtain pre where
    pre: "ac_rounded_green_times ac avg = Inr pre"
    by (auto simp add: ac_compute_green_times_def Let_def split: sum.splits if_splits)
  define diff where "diff = ac_available_time ac - sum_list (map snd pre)"
  have keys: "fst ` set pre = set (ac_lanes ac)" using ac_rounded_keys[OF pre] .
  show ?thesis
  proof (cases "diff = 0")
    case True
    with c al pos pre have "g = pre"
      by (auto simp add: ac_compute_green_times_def Let_def diff_def split: sum.splits if_splits)
    with pre keys show ?thesis by auto
  next
    case False
    with c al pos pre obtain keyed where
      k: "ac_sort_keys avg (ac_lanes ac) = Inr keyed"
      and r: "redistribute (map fst (sorted_desc keyed)) pre diff = Inr g"
      by (auto simp add: ac_compute_green_times_def Let_def diff_def split: sum.splits if_splits)
    have mk: "map fst keyed = ac_lanes ac" using ac_sort_keys_fst[OF k] .
    have d: "distinct (map fst (sorted_desc keyed))"
      using dl mk by (intro distinct_keys_sorted_desc) simp
    have "length keyed = length (ac_lanes ac)" using mk by (metis length_map)
    then have len: "length (map fst (sorted_desc keyed)) = length (ac_lanes ac)"
      by (simp add: sorted_desc_def)
    have look: "\<exists>v'. map_of g l = Some v' \<and> \<bar>v' - v\<bar> \<le> 1" if "map_of pre l = Some v" for l v
      using redistribute_lookup[OF r d that] by (auto split: if_splits)
    have "\<bar>sum_list (map snd g) - sum_list (map snd pre)\<bar> \<le> int (length (map fst (sorted_desc keyed)))"
      using redistribute_sum[OF r] by (auto split: if_splits)
    with len have s: "\<bar>sum_list (map snd g) - sum_list (map snd pre)\<bar> \<le> int (length (ac_lanes ac))"
      by linarith
    show ?thesis using pre keys redistribute_keys[OF r] look s by blast
  qed
qed

text \<open>
  C10: in both controllers, whenever \<open>compute_green_times\<close> returns on the
  proportional path (total density positive), the redistribution has visited each
  lane at most once and moved it by at most one second: every lane's final green
  time differs from its clamped-and-truncated value by at most 1, no lane is added or
  removed, and the final sum differs from the sum before redistribution by at most
  the number of lanes. (The lane list of the all-in-one backend is the fixed list of
  four distinct lanes set by its constructor.)
\<close>

theorem redistribution_single_pass:
  "(compute_green_times c = Inr (g, avg) \<and> 0 < sum_list (map snd avg) \<longrightarrow>
      (\<exists>pre. rounded_green_times (timing c) (lanes c) avg = Inr pre \<and>
           fst ` set pre = set (lanes c) \<and> map fst g = map fst pre \<and>
           (\<forall>l v. map_of pre l = Some v \<longrightarrow> (\<exists>v'. map_of g l = Some v' \<and> \<bar>v' - v\<bar> \<le> 1)) \<and>
           \<bar>sum_list (map snd g) - sum_list (map snd pre)\<bar> \<le> int (length (lanes c)))) \<and>
   (ac_compute_green_times ac sd = Inr ag \<and> ac_avg_density_loop sd (ac_lanes ac) [] = Inr aavg \<and>
      0 < sum_list (map snd aavg) \<and> distinct (ac_lanes ac) \<longrightarrow>
      (\<exists>pre. ac_rounded_green_times ac aavg = Inr pre \<and>
           fst ` set pre = set (ac_lanes ac) \<and> map fst ag = map fst pre \<and>
           (\<forall>l v. map_of pre l = Some v \<longrightarrow> (\<exists>v'. map_of ag l = Some v' \<and> \<bar>v' - v\<bar> \<le> 1)) \<and>
           \<bar>sum_list (map snd ag) - sum_list (map snd pre)\<bar> \<le> int (length (ac_lanes ac))))"
  using edge_redistribution_bounded[of c g avg] ac_redistribution_bounded[of ac sd ag aavg]
  by blast

theorem redistribution_single_pass_witness:
  "compute_green_times (ingest example_controller north_only) =
     Inr ([(''north'', 39), (''south'', 9), (''east'', 9), (''west'', 9)],
          [(''north'', 100), (''south'', 0), (''east'', 0), (''west'', 0)]) \<and>
   rounded_green_times (timing (ingest example_controller north_only))
       (lanes (ingest example_controller north_only))
       [(''north'', 100), (''south'', 0), (''east'', 0), (''west'', 0)]
     = Inr [(''north'', 40), (''south'', 10), (''east'', 10), (''west'', 10)] \<and>
   \<bar>sum_list (map snd [(''north'', 39 :: int), (''south'', 9), (''east'', 9), (''west'', 9)])
      - sum_list (map snd [(''north'', 40 :: int), (''south'', 10), (''east'', 10), (''west'', 10)])\<bar>
     \<le> int (length (lanes (ingest example_controller north_only))) \<and>
   ac_compute_green_times adaptive_init ac_north_only =
     Inr [(''north'', 39), (''south'', 9), (''east'', 9), (''west'', 9)] \<and>
   distinct (ac_lanes adaptive_init) \<and>
   ac_rounded_green_times adaptive_init
       [(''north'', 100), (''south'', 0), (''east'', 0), (''west'', 0)]
     = Inr [(''north'', 40), (''south'', 10), (''east'', 10), (''west'', 10)]"
proof -
  define c where "c = ingest example_controller north_only"
  define A :: "(lane \<times> rat) list" where
    "A = [(''north'', 100), (''south'', 0), (''east'', 0), (''west'', 0)]"
  define G :: "(lane \<times> int) list" where
    "G = [(''north'', 39), (''south'', 9), (''east'', 9), (''west'', 9)]"
  define P :: "(lane \<times> int) list" where
    "P = [(''north'', 40), (''south'', 10), (''east'', 10), (''west'', 10)]"
  have e1: "compute_green_times c = Inr (G, A)"
    unfolding c_def G_def A_def by code_simp
  have e2: "rounded_green_times (timing c) (lanes c) A = Inr P"
    unfolding c_def A_def P_def by code_simp
  have e3: "ac_compute_green_times adaptive_init ac_north_only = Inr G"
    unfolding G_def by code_simp
  have e4: "ac_avg_density_loop ac_north_only (ac_lanes adaptive_init) [] = Inr A"
    unfolding A_def by code_simp
  have e5: "ac_rounded_green_times adaptive_init A = Inr P"
    unfolding A_def P_def by code_simp
  have e6: "distinct (ac_lanes adaptive_init)"
    by (simp add: adaptive_init_def)
  have pos: "0 < sum_list (map snd A)" by (simp add: A_def)
  have "\<bar>sum_list (map snd G) - sum_list (map snd P)\<bar> \<le> int (length (lanes c))"
    using redistribution_single_pass[of c G A adaptive_init ac_north_only G A]
      e1 e2 e3 e4 e5 e6 pos by auto
  then show ?thesis
    using e1 e2 e3 e5 e6 unfolding c_def A_def G_def P_def by simp
qed

section \<open>The sum of the green times\<close>

text \<open>
  When the rounding difference is no larger than the number of lanes, the single
  pass uses it up and the green times of the proportional controller sum to the
  available time.
\<close>

lemma edge_sum_exact_small_diff:
  assumes c: "compute_green_times c = Inr (g, avg)" and pos: "0 < sum_list (map snd avg)"
    and pre: "rounded_green_times (timing c) (lanes c) avg = Inr pre"
    and small: "\<bar>available_time (timing c) (lanes c) - sum_list (map snd pre)\<bar>
                  \<le> int (length avg)"
  shows "sum_list (map snd g) = available_time (timing c) (lanes c)"
proof -
  define diff where "diff = available_time (timing c) (lanes c) - sum_list (map snd pre)"
  from c have al: "avg_densities_loop (sensor_data c) (lanes c) [] = Inr avg"
    by (auto simp add: compute_green_times_def Let_def split: sum.splits if_splits)
  from c al pos pre have fin:
    "(if diff \<noteq> 0 then redistribute (map fst (sorted_desc avg)) pre diff else Inr pre) = Inr g"
    by (auto simp add: compute_green_times_def Let_def diff_def split: sum.splits if_splits)
  show ?thesis
  proof (cases "diff = 0")
    case True
    with fin have "g = pre" by simp
    with True show ?thesis by (simp add: diff_def)
  next
    case False
    with fin have r: "redistribute (map fst (sorted_desc avg)) pre diff = Inr g" by simp
    have "\<bar>diff\<bar> \<le> int (length (map fst (sorted_desc avg)))"
      using small by (simp add: diff_def sorted_desc_def)
    with redistribute_sum[OF r] show ?thesis by (simp add: diff_def)
  qed
qed

text \<open>
  C1 (for every density vector with positive total, the returned green times sum
  exactly to the available time). The code at one reading of density 100 on the
  north lane: the available time is 40, clamping gives 40, 10, 10, 10 (sum 70), the
  difference is \<open>-30\<close>, and the single pass over the four lanes takes off one second
  each. Both controllers return 39, 9, 9, 9, which sums to 66.
\<close>

theorem single_pass_misses_available_time:
  "compute_green_times (ingest example_controller north_only) =
     Inr ([(''north'', 39), (''south'', 9), (''east'', 9), (''west'', 9)],
          [(''north'', 100), (''south'', 0), (''east'', 0), (''west'', 0)]) \<and>
   available_time (timing (ingest example_controller north_only))
     (lanes (ingest example_controller north_only)) = 40 \<and>
   ac_compute_green_times adaptive_init ac_north_only =
     Inr [(''north'', 39), (''south'', 9), (''east'', 9), (''west'', 9)] \<and>
   ac_available_time adaptive_init = 40 \<and>
   sum_list (map snd [(''north'', 39 :: int), (''south'', 9), (''east'', 9), (''west'', 9)]) = 66"
  by code_simp

section \<open>The zero-density fallback\<close>

lemma dict_comprehension_lookup:
  "map_of (dict_comprehension f ks acc) k = (if k \<in> set ks then Some (f k) else map_of acc k)"
  by (induction ks arbitrary: acc) (auto simp add: AList.update_conv')

text \<open>
  C6 as stated (with a total density of at most 0, every lane gets
  \<open>floor(cycleLength / (2 * lanesCount))\<close>, for every lane set) fails: with no
  readings the controller of the all-in-one backend gives every lane its minimum
  green, 10, where the formula gives 7; and with an empty lane list the proportional
  controller divides by zero.
\<close>

theorem fallback_not_half_cycle_split:
  "ac_compute_green_times adaptive_init (const_dict [''north'', ''south'', ''east'', ''west''] [])
     = Inr [(''north'', 10), (''south'', 10), (''east'', 10), (''west'', 10)] \<and>
   ac_cycle_length adaptive_init div (2 * int (length (ac_lanes adaptive_init))) = 7 \<and>
   lanes (projr (init (env_with invalid_config) ''config/controller.yml'')) = [] \<and>
   compute_green_times (projr (init (env_with invalid_config) ''config/controller.yml'')) = Inl ZeroDivisionError"
  by code_simp

text \<open>
  C6, amended: when the total of the per-lane averages is at most 0, the
  proportional controller with a non-empty lane list returns for every configured
  lane the identical value \<open>cycle_length div (2 * number of lanes)\<close>, and the
  controller of the all-in-one backend returns for every lane the identical value
  \<open>min_green\<close>. Either result is a constant map over the lanes: no average enters
  it, and the only division is by twice the (non-zero) number of lanes.
\<close>

theorem zero_density_fallback:
  "(avg_densities_loop (sensor_data c) (lanes c) [] = Inr avg \<and>
    sum_list (map snd avg) \<le> 0 \<and> lanes c \<noteq> [] \<longrightarrow>
      (\<exists>g. compute_green_times c = Inr (g, avg) \<and>
           (\<forall>l. map_of g l =
              (if l \<in> set (lanes c)
               then Some (cycle_length (timing c) div (2 * int (length (lanes c))))
               else None)))) \<and>
   (ac_avg_density_loop sd (ac_lanes ac) [] = Inr aavg \<and> sum_list (map snd aavg) \<le> 0 \<longrightarrow>
      (\<exists>g. ac_compute_green_times ac sd = Inr g \<and>
           (\<forall>l. map_of g l = (if l \<in> set (ac_lanes ac) then Some (ac_min_green ac) else None))))"
  by (auto simp add: compute_green_times_def ac_compute_green_times_def Let_def
      dict_comprehension_lookup mult.commute)

theorem zero_density_fallback_witness:
  "avg_densities_loop (sensor_data example_controller) (lanes example_controller) []
     = Inr [(''north'', 0), (''south'', 0), (''east'', 0), (''west'', 0)] \<and>
   lanes example_controller \<noteq> [] \<and>
   (\<exists>g. compute_green_times example_controller
          = Inr (g, [(''north'', 0), (''south'', 0), (''east'', 0), (''west'', 0)]) \<and>
        map_of g ''north'' = Some 7 \<and> map_of g ''west'' = Some 7) \<and>
   ac_avg_density_loop (const_dict [''north'', ''south'', ''east'', ''west''] [])
       (ac_lanes adaptive_init) []
     = Inr [(''north'', 0), (''south'', 0), (''east'', 0), (''west'', 0)] \<and>
   (\<exists>g. ac_compute_green_times adaptive_init
          (const_dict [''north'', ''south'', ''east'', ''west''] []) = Inr g \<and>
        map_of g ''north'' = Some 10 \<and> map_of g ''west'' = Some 10)"
proof -
  define A :: "(lane \<times> rat) list" where
    "A = [(''north'', 0), (''south'', 0), (''east'', 0), (''west'', 0)]"
  define sd :: "lane \<rightharpoonup> sample list" where
    "sd = const_dict [''north'', ''south'', ''east'', ''west''] []"
  have h1: "avg_densities_loop (sensor_data example_controller) (lanes example_controller) [] = Inr A"
    unfolding A_def by code_simp
  have h2: "sum_list (map snd A) \<le> 0" by (simp add: A_def)
  have h3: "lanes example_controller \<noteq> []" by (simp add: example_controller_def)
  have h4: "ac_avg_density_loop sd (ac_lanes adaptive_init) [] = Inr A"
    unfolding A_def sd_def by code_simp
  have l: "lanes example_controller = [''north'', ''south'', ''east'', ''west'']"
    "ac_lanes adaptive_init = [''north'', ''south'', ''east'', ''west'']"
    "cycle_length (timing example_controller) = 60" "ac_min_green adaptive_init = 10"
    by (simp_all add: example_controller_def example_timing_def adaptive_init_def)
  from zero_density_fallback[where c=example_controller and avg=A and ac=adaptive_init
      and sd=sd and aavg=A] h1 h2 h3 h4
  obtain g ag where
    g: "compute_green_times example_controller = Inr (g, A)"
      "\<And>l. map_of g l = (if l \<in> set (lanes example_controller)
               then Some (cycle_length (timing example_controller) div (2 * int (length (lanes example_controller))))
               else None)"
    and ag: "ac_compute_green_times adaptive_init sd = Inr ag"
      "\<And>l. map_of ag l = (if l \<in> set (ac_lanes adaptive_init) then Some (ac_min_green adaptive_init) else None)"
    by blast
  have "map_of g ''north'' = Some 7" "map_of g ''west'' = Some 7"
    using g(2)[of "''north''"] g(2)[of "''west''"] by (simp_all add: l)
  moreover have "map_of ag ''north'' = Some 10" "map_of ag ''west'' = Some 10"
    using ag(2)[of "''north''"] ag(2)[of "''west''"] by (simp_all add: l)
  ultimately show ?thesis using h1 h3 h4 g(1) ag(1) unfolding A_def sd_def by blast
qed

section \<open>The allocation returns\<close>

text \<open>
  \<open>compute_green_times\<close> raises nothing on any state the controller can reach from
  a configuration with at least one lane: every configured lane keeps a window
  through ingestion, the averages exist for every lane, and every key the loops look
  up is present. The results above about what it returns are therefore about every
  such state.
\<close>

lemma avg_loop_returns:
  "(\<And>l. l \<in> set ls \<Longrightarrow> sd l \<noteq> None) \<Longrightarrow> \<exists>avg. avg_densities_loop sd ls acc = Inr avg"
proof (induction ls arbitrary: acc)
  case Nil then show ?case by simp
next
  case (Cons a ls)
  from Cons.prems[of a] obtain w where w: "sd a = Some w" by auto
  have "\<exists>avg. avg_densities_loop sd ls (AList.update a (window_average w) acc) = Inr avg"
    using Cons.prems by (intro Cons.IH) simp
  with w show ?case by simp
qed

lemma raw_loop_returns:
  "set ls \<subseteq> fst ` set avg \<Longrightarrow> \<exists>raw. raw_greens_loop tm avg td av ls acc = Inr raw"
proof (induction ls arbitrary: acc)
  case Nil then show ?case by simp
next
  case (Cons a ls)
  from Cons.prems have "a \<in> fst ` set avg" by simp
  then obtain x where x: "map_of avg a = Some x"
    by (metis domD dom_map_of_conv_image_fst)
  from Cons.prems have "set ls \<subseteq> fst ` set avg" by simp
  from Cons.IH[OF this] x show ?case by (simp add: Let_def)
qed

lemma compute_green_times_returns:
  assumes sd: "\<And>l. l \<in> set (lanes c) \<Longrightarrow> sensor_data c l \<noteq> None"
    and ne: "lanes c \<noteq> []"
  shows "\<exists>g avg. compute_green_times c = Inr (g, avg)"
proof -
  from avg_loop_returns[of "lanes c" "sensor_data c" "[]"] sd
  obtain avg where al: "avg_densities_loop (sensor_data c) (lanes c) [] = Inr avg" by blast
  from avg_loop_keys[OF al] have ak: "fst ` set avg = set (lanes c)" by simp
  show ?thesis
  proof (cases "sum_list (map snd avg) \<le> 0")
    case True
    with al ne show ?thesis by (simp add: compute_green_times_def)
  next
    case False
    from raw_loop_returns[of "lanes c" avg "timing c" "sum_list (map snd avg)"
        "available_time (timing c) (lanes c)" "[]"] ak
    obtain raw where "raw_greens_loop (timing c) avg (sum_list (map snd avg))
        (available_time (timing c) (lanes c)) (lanes c) [] = Inr raw" by auto
    then obtain pre where pre: "rounded_green_times (timing c) (lanes c) avg = Inr pre"
      by (simp add: rounded_green_times_def)
    have "set (map fst (sorted_desc avg)) \<subseteq> fst ` set pre"
      using rounded_keys[OF pre] ak by (simp add: sorted_desc_def)
    from redistribute_returns[OF this] obtain g where
      "redistribute (map fst (sorted_desc avg)) pre
         (available_time (timing c) (lanes c) - sum_list (map snd pre)) = Inr g"
      by blast
    with al False pre show ?thesis
      by (simp add: compute_green_times_def Let_def)
  qed
qed

lemma on_message_keeps_windows:
  "lanes (fst (on_message c t m)) = lanes c \<and>
   (sensor_data c l \<noteq> None \<longrightarrow> sensor_data (fst (on_message c t m)) l \<noteq> None)"
  by (simp add: on_message_def Let_def split: option.splits)

lemma ingest_keeps_windows:
  "lanes (ingest c tr) = lanes c \<and>
   (sensor_data c l \<noteq> None \<longrightarrow> sensor_data (ingest c tr) l \<noteq> None)"
proof (induction tr arbitrary: c)
  case Nil then show ?case by simp
next
  case (Cons a tr)
  obtain t m where a: "a = (t, m)" by (cases a)
  show ?case using Cons.IH[of "fst (on_message c t m)"] on_message_keeps_windows[of c t m l]
    by (simp add: a)
qed

lemma compute_returns_after_init:
  assumes "init env config_file = Inr c0" and "lanes c0 \<noteq> []"
  shows "\<exists>g avg. compute_green_times (ingest c0 tr) = Inr (g, avg)"
proof -
  from assms(1) have w: "\<And>l. l \<in> set (lanes c0) \<Longrightarrow> sensor_data c0 l \<noteq> None"
    by (auto simp add: init_def const_dict_def split: sum.splits option.splits)
  from assms have ne: "lanes c0 \<noteq> []"
    by simp
  show ?thesis
    using w ne ingest_keeps_windows[of c0 tr]
    by (intro compute_green_times_returns) auto
qed

end
